theory Spec2Isabelle
  imports Main "HOL-Library.Word"
begin

unbundle bit_operations_syntax

section \<open>The observable events of a run\<close>

text \<open>
  The program of \<^verbatim>\<open>m17-mod.cpp\<close> acts on the world through its three output streams
  and through the objects it drives (the two queues, the modulator, the capture thread,
  the run flag). A run is modelled by the list of these actions in program order.
  A message statement (\<^verbatim>\<open>std::cerr << "..." << std::endl\<close>) is one event.
\<close>

datatype exn =
    required_option string  \<comment> \<open>thrown by \<^verbatim>\<open>po::notify\<close> when a required option is absent\<close>
  | future_error            \<comment> \<open>the failure stored in the future, rethrown by \<^verbatim>\<open>future.get()\<close>\<close>

datatype event =
    CoutHelp                \<comment> \<open>lines 58-59: the help text and the option description\<close>
  | CoutVersion string      \<comment> \<open>line 66: \<^verbatim>\<open>argv[0]\<close>, a colon and the version\<close>
  | CerrWhat exn            \<comment> \<open>line 74: \<^verbatim>\<open>ex.what()\<close>\<close>
  | CoutDesc                \<comment> \<open>line 75: the option description\<close>
  | CerrText string         \<comment> \<open>lines 81, 87, 93, 126\<close>
  | ClogText string         \<comment> \<open>lines 151, 178\<close>
  | CoutByte "8 word"       \<comment> \<open>lines 158, 172: one character written to \<^verbatim>\<open>std::cout\<close>\<close>
  | CoutFlush               \<comment> \<open>lines 163, 173: \<^verbatim>\<open>std::cout.flush()\<close>\<close>
  | SignalInstalled         \<comment> \<open>line 117\<close>
  | AudioQueueNew           \<comment> \<open>line 119\<close>
  | BitstreamQueueNew       \<comment> \<open>line 120\<close>
  | ModulatorNew string string  \<comment> \<open>line 122\<close>
  | ModulatorRun            \<comment> \<open>line 123\<close>
  | PttOn                   \<comment> \<open>line 124\<close>
  | ThreadStart             \<comment> \<open>line 132\<close>
  | Yield                   \<comment> \<open>line 143\<close>
  | RunningStore bool       \<comment> \<open>lines 152, 180: a store to \<^verbatim>\<open>running\<close> by the main thread\<close>
  | PttOff                  \<comment> \<open>line 181\<close>
  | WaitUntilIdle           \<comment> \<open>line 182\<close>
  | ThreadJoin              \<comment> \<open>line 183\<close>
  | AudioQueueClose         \<comment> \<open>line 184\<close>
  | FutureGet               \<comment> \<open>line 185\<close>
  | BitstreamQueueClose     \<comment> \<open>line 186\<close>

section \<open>Configuration: \<^verbatim>\<open>Config::parse\<close>\<close>

record Config =
  source_address :: string
  destination_address :: string
  audio_device :: string
  event_device :: string
  key :: "16 word"
  verbose :: bool
  debug :: bool
  quiet :: bool
  bitstream :: bool

text \<open>
  \<^verbatim>\<open>po::store(po::parse_command_line(argc, argv, desc), vm)\<close> is Boost code. Its result,
  the variables map, is the input of the model: which options the command line gave and
  with which values. An option with a value that was not given is \<open>None\<close>; a switch
  that was not given is \<open>False\<close>.
\<close>

record variables_map =
  vm_help :: bool
  vm_version :: bool
  vm_src :: "string option"
  vm_dest :: "string option"
  vm_audio :: "string option"
  vm_event :: "string option"
  vm_key :: "16 word option"
  vm_bitstream :: bool
  vm_verbose :: bool
  vm_debug :: bool
  vm_quiet :: bool

definition default_event_device :: string where
  "default_event_device =
     ''/dev/input/by-id/usb-C-Media_Electronics_Inc._USB_Audio_Device-event-if03''"

definition default_key :: "16 word" where
  "default_key = 385"

text \<open>
  \<^verbatim>\<open>po::notify(vm)\<close>: a required option that is absent raises; otherwise every bound
  variable of \<^verbatim>\<open>result\<close> receives the option's value, or its declared default, and a
  variable with neither keeps the value \<^verbatim>\<open>Config result;\<close> gave it (an empty string).
\<close>

definition notify :: "variables_map \<Rightarrow> exn + Config" where
  "notify vm =
     (case vm_src vm of
        None \<Rightarrow> Inl (required_option ''src'')
      | Some s \<Rightarrow>
          Inr \<lparr> source_address = s,
                destination_address = (case vm_dest vm of None \<Rightarrow> [] | Some d \<Rightarrow> d),
                audio_device = (case vm_audio vm of None \<Rightarrow> [] | Some a \<Rightarrow> a),
                event_device =
                  (case vm_event vm of None \<Rightarrow> default_event_device | Some e \<Rightarrow> e),
                key = (case vm_key vm of None \<Rightarrow> default_key | Some k \<Rightarrow> k),
                verbose = vm_verbose vm,
                debug = vm_debug vm,
                quiet = vm_quiet vm,
                bitstream = vm_bitstream vm \<rparr>)"

text \<open>
  \<^verbatim>\<open>Config::parse\<close>, lines 56 to 97, in the order of the source. The result is what was
  printed and the optional configuration.
\<close>

definition parse :: "string \<Rightarrow> variables_map \<Rightarrow> event list \<times> Config option" where
  "parse argv0 vm =
     (if vm_help vm then ([CoutHelp], None)
      else if vm_version vm then ([CoutVersion argv0], None)
      else
        (case notify vm of
           Inl ex \<Rightarrow> ([CerrWhat ex, CoutDesc], None)
         | Inr result \<Rightarrow>
             if (of_bool (debug result) + of_bool (verbose result)
                   + of_bool (quiet result) :: int) > 1
             then ([CerrText ''Only one of quiet, verbos or debug may be chosen.''], None)
             else if length (source_address result) > 9
             then ([CerrText ''Source identifier too long.''], None)
             else if length (destination_address result) > 9
             then ([CerrText ''Destination identifier too long.''], None)
             else ([], Some result)))"

section \<open>The frame assembler: the loop of \<^verbatim>\<open>main\<close>, lines 146 to 176\<close>

text \<open>
  \<^verbatim>\<open>M17Modulator.h\<close> is not among the sources. The two conversion functions the loop
  calls are parameters of the model, and so is the frame capacity
  \<^verbatim>\<open>bitstream.size()\<close>: it is the length of the buffer the loop starts with.
\<close>

record 'sym M17Modulator =
  bytes_to_symbols :: "8 word list \<Rightarrow> 'sym"
  symbols_to_baseband :: "'sym \<Rightarrow> 16 word list"

text \<open>
  The loop's variables: the frame buffer \<^verbatim>\<open>bitstream\<close> (named \<open>bitstream_buf\<close>
  here, as \<open>bitstream\<close> is the configuration's switch), the cursor \<^verbatim>\<open>index\<close> (a
  \<^verbatim>\<open>size_t\<close>, taken as 64 bits wide) and what the run has done so far.
\<close>

record asm_state =
  bitstream_buf :: "8 word list"
  index :: "64 word"
  trace :: "event list"

text \<open>Line 172: a baseband value is written high byte first.\<close>

definition baseband_bytes :: "16 word \<Rightarrow> 8 word list" where
  "baseband_bytes b = [ucast (drop_bit 8 (b AND 0xFF00)), ucast (b AND 0xFF)]"

text \<open>Lines 171 to 173: convert the buffer, write every value, flush.\<close>

definition emit_baseband :: "'sym M17Modulator \<Rightarrow> 8 word list \<Rightarrow> event list" where
  "emit_baseband M buf =
     map CoutByte
       (concat (map baseband_bytes (symbols_to_baseband M (bytes_to_symbols M buf))))
     @ [CoutFlush]"

text \<open>
  Lines 156 to 175, for one bit. In bitstream mode the statement \<^verbatim>\<open>index == 0;\<close> of
  line 162 is a comparison whose value is dropped, so it changes nothing. In baseband
  mode \<^verbatim>\<open>bitstream[index++] = bits\<close> is an unchecked store into a \<^verbatim>\<open>std::array\<close>:
  with the cursor outside the array its behaviour is undefined, and the model stops
  there with \<open>None\<close>.
\<close>

definition frame_body ::
  "bool \<Rightarrow> 'sym M17Modulator \<Rightarrow> 8 word \<Rightarrow> asm_state \<Rightarrow> asm_state option" where
  "frame_body bitstream_mode M bits s =
     (if bitstream_mode then
        (let s1 = s\<lparr> trace := trace s @ [CoutByte bits] \<rparr>;
             s2 = s1\<lparr> index := index s1 + 1 \<rparr>
         in if index s2 = of_nat (length (bitstream_buf s2))
            then Some (s2\<lparr> trace := trace s2 @ [CoutFlush] \<rparr>)
            else Some s2)
      else if unat (index s) < length (bitstream_buf s) then
        (let s1 = s\<lparr> bitstream_buf := (bitstream_buf s)[unat (index s) := bits],
                     index := index s + 1 \<rparr>
         in if index s1 = of_nat (length (bitstream_buf s1))
            then Some (s1\<lparr> trace := trace s1 @ emit_baseband M (bitstream_buf s1) \<rparr>)
            else Some s1)
      else None)"

text \<open>
  What the main thread observes at one turn of the loop: the flag read false at line 146,
  or the flag read true and then the result of \<^verbatim>\<open>bitstream_queue->get(bits, 1s)\<close>:
  a bit, or nothing, with the answer \<^verbatim>\<open>is_closed()\<close> gives at line 150.
\<close>

datatype loop_ev = FlagFalse | GetBit "8 word" | GetNothing bool

datatype loop_end =
    LoopCondFalse   \<comment> \<open>line 146 read the flag false\<close>
  | LoopBreak       \<comment> \<open>line 153\<close>
  | AssertFailed    \<comment> \<open>line 150, in a build where \<^verbatim>\<open>assert\<close> is active\<close>
  | OutOfBounds     \<comment> \<open>line 168 with the cursor outside the frame\<close>
  | StillRunning    \<comment> \<open>the observations end before the loop does\<close>

fun main_loop ::
  "bool \<Rightarrow> 'sym M17Modulator \<Rightarrow> loop_ev list \<Rightarrow> asm_state \<Rightarrow> asm_state \<times> loop_end" where
  "main_loop bm M [] s = (s, StillRunning)"
| "main_loop bm M (FlagFalse # evs) s = (s, LoopCondFalse)"
| "main_loop bm M (GetNothing closed # evs) s =
     (if closed
      then (s\<lparr> trace := trace s
                  @ [ClogText ''bitstream queue is closed; done transmitting.'',
                     RunningStore False] \<rparr>, LoopBreak)
      else (s, AssertFailed))"
| "main_loop bm M (GetBit bits # evs) s =
     (case frame_body bm M bits s of
        None \<Rightarrow> (s, OutOfBounds)
      | Some s' \<Rightarrow> main_loop bm M evs s')"

text \<open>
  Lines 128 to 130: the frame buffer is declared without an initialiser, so its first
  contents \<open>buf\<close> are whatever the memory held; the cursor starts at 0.
\<close>

definition asm_init :: "8 word list \<Rightarrow> event list \<Rightarrow> asm_state" where
  "asm_init buf tr = \<lparr> bitstream_buf = buf, index = 0, trace = tr \<rparr>"

section \<open>The whole of \<^verbatim>\<open>main\<close>\<close>

text \<open>
  What one run meets from outside the main thread: how often line 143 yields before it
  reads the flag true (\<open>None\<close>: it never does), what the loop observes turn by turn,
  the first contents of the frame buffer, and how the three blocking calls of teardown
  end. \<^verbatim>\<open>wait_until_idle()\<close> returns or waits for ever; \<^verbatim>\<open>thd.join()\<close> returns once
  the capture thread has ended, and waits for ever while that thread stays blocked in
  the read of line 137 (it tests the flag at line 135 only); \<^verbatim>\<open>future.get()\<close> returns,
  rethrows a failure of the encoding task, or waits for ever.
\<close>

datatype future_outcome = FutureReady | FutureThrows | FutureBlocks

record run_env =
  spin_yields :: "nat option"
  observations :: "loop_ev list"
  idle_returns :: bool
  join_returns :: bool
  future :: future_outcome
  memory :: "8 word list"

datatype exit =
    Returned int      \<comment> \<open>\<^verbatim>\<open>main\<close> returns this value\<close>
  | Aborted           \<comment> \<open>the assertion of line 150 failed\<close>
  | UndefinedBehaviour  \<comment> \<open>the store of line 168 was out of bounds\<close>
  | Terminated exn    \<comment> \<open>an exception left \<^verbatim>\<open>main\<close>\<close>
  | NoReturn          \<comment> \<open>in a loop when the observations end, or in a call that waits for ever\<close>

text \<open>
  Lines 178 to 188. An event of a blocking call is the call being made; when the call
  does not return, the run goes no further.
\<close>

definition teardown :: "run_env \<Rightarrow> event list \<Rightarrow> event list \<times> exit" where
  "teardown env tr =
     (let tr1 = tr @ [ClogText ''No longer running'', RunningStore False, PttOff,
                      WaitUntilIdle]
      in if \<not> idle_returns env then (tr1, NoReturn)
         else
           (let tr2 = tr1 @ [ThreadJoin]
            in if \<not> join_returns env then (tr2, NoReturn)
               else
                 (let tr3 = tr2 @ [AudioQueueClose, FutureGet]
                  in case future env of
                       FutureBlocks \<Rightarrow> (tr3, NoReturn)
                     | FutureThrows \<Rightarrow> (tr3, Terminated future_error)
                     | FutureReady \<Rightarrow> (tr3 @ [BitstreamQueueClose], Returned 0))))"

text \<open>Lines 117 to 132.\<close>

definition startup :: "Config \<Rightarrow> event list" where
  "startup config =
     [SignalInstalled, AudioQueueNew, BitstreamQueueNew,
      ModulatorNew (source_address config) (destination_address config),
      ModulatorRun, PttOn, CerrText ''m17-mod running. ctrl-D to break.'', ThreadStart]"

definition main ::
  "string \<Rightarrow> variables_map \<Rightarrow> 'sym M17Modulator \<Rightarrow> run_env \<Rightarrow> event list \<times> exit" where
  "main argv0 vm M env =
     (case parse argv0 vm of
        (out, None) \<Rightarrow> (out, Returned 0)
      | (out, Some config) \<Rightarrow>
          (case spin_yields env of
             None \<Rightarrow> (out @ startup config, NoReturn)
           | Some n \<Rightarrow>
               (case main_loop (bitstream config) M (observations env)
                       (asm_init (memory env) (out @ startup config @ replicate n Yield)) of
                  (s, AssertFailed) \<Rightarrow> (trace s, Aborted)
                | (s, OutOfBounds) \<Rightarrow> (trace s, UndefinedBehaviour)
                | (s, StillRunning) \<Rightarrow> (trace s, NoReturn)
                | (s, LoopCondFalse) \<Rightarrow> teardown env (trace s)
                | (s, LoopBreak) \<Rightarrow> teardown env (trace s))))"

section \<open>The capture thread, lines 132 to 141\<close>

text \<open>
  \<^verbatim>\<open>std::cin\<close>, good when the thread starts: the bytes still to come and the fail
  bit. \<^verbatim>\<open>read(p, 2)\<close> on a good stream takes up to two bytes and stores them at
  \<^verbatim>\<open>p\<close>; with fewer than two left it stores what there was and sets the fail bit
  (with the end-of-file bit). The sample is a 16-bit integer whose first byte in memory
  is its low byte (a little-endian machine, as the input format of line 145).
\<close>

record cin_state =
  pending :: "8 word list"
  failed :: bool

fun cin_read2 :: "cin_state \<Rightarrow> 16 word \<Rightarrow> cin_state \<times> 16 word" where
  "cin_read2 cin sample =
     (if failed cin then (cin, sample)
      else
        (case pending cin of
           b0 # b1 # rest \<Rightarrow>
             (cin\<lparr> pending := rest \<rparr>, push_bit 8 (ucast b1) OR ucast b0)
         | [b0] \<Rightarrow>
             (cin\<lparr> pending := [], failed := True \<rparr>, (sample AND 0xFF00) OR ucast b0)
         | [] \<Rightarrow> (cin\<lparr> failed := True \<rparr>, sample)))"

datatype capture_event = StoreRunning bool | Put "16 word"

text \<open>
  The loop of lines 135 to 139. \<open>flag i\<close> is the value the \<open>i\<close>-th test of line 135
  reads from \<^verbatim>\<open>running\<close>: the signal handler and the main thread may clear it at any
  moment. The result of \<^verbatim>\<open>put\<close> is dropped by the code, and so it is here.
\<close>

function capture_loop ::
  "(nat \<Rightarrow> bool) \<Rightarrow> nat \<Rightarrow> cin_state \<Rightarrow> 16 word \<Rightarrow> capture_event list" where
  "capture_loop flag i cin sample =
     (if flag i \<and> \<not> failed cin
      then Put (snd (cin_read2 cin sample))
             # capture_loop flag (Suc i) (fst (cin_read2 cin sample)) (snd (cin_read2 cin sample))
      else [])"
  by pat_completeness auto
termination
  by (relation "measure (\<lambda>(flag, i, cin, sample).
                   if failed cin then 0 else Suc (length (pending cin)))")
     (auto split: list.splits)

definition capture_thread :: "(nat \<Rightarrow> bool) \<Rightarrow> 8 word list \<Rightarrow> capture_event list" where
  "capture_thread flag bytes =
     StoreRunning True
       # capture_loop flag 0 \<lparr> pending = bytes, failed = False \<rparr> 0
       @ [StoreRunning False]"

declare capture_loop.simps [simp del]

section \<open>The run flag under interleaving\<close>

text \<open>
  \<^verbatim>\<open>running\<close> is a \<^verbatim>\<open>std::atomic<bool>\<close> read and written with the default
  (sequentially consistent) order, so an execution is an interleaving of the steps of the
  capture thread, of the main thread and of the signal handler. A thread's position is
  the line it executes next. The system starts after line 117 has installed the handler,
  with the flag as line 101 initialises it.
\<close>

datatype capture_pc = C134 | C135 | C137 | C138 | C140 | Cdone

datatype main_pc =
  M132 | M143 | M146 | M148 | M156 | M180 | M181 | M182 | M183 | M184 | M185 | M186
  | Mreturn | Mabort | Mundefined | Mthrow

record sys =
  running :: bool
  capture :: "capture_pc option"   \<comment> \<open>\<open>None\<close> until line 132 has started the thread\<close>
  mainpc :: main_pc

datatype actor = CaptureThread | MainThread | SignalHandler

definition sys_init :: sys where
  "sys_init = \<lparr> running = False, capture = None, mainpc = M132 \<rparr>"

text \<open>
  One step, labelled with who takes it and at which line. What a step cannot see in the
  flag (the state of \<^verbatim>\<open>std::cin\<close>, the answer of a queue, the bounds of the frame, the
  result of the future) is left open: both outcomes are steps.
\<close>

inductive step :: "sys \<Rightarrow> actor \<times> nat \<Rightarrow> sys \<Rightarrow> bool" where
  spawn:
    "mainpc s = M132 \<Longrightarrow>
     step s (MainThread, 132) (s\<lparr> capture := Some C134, mainpc := M143 \<rparr>)"
| set_true:
    "capture s = Some C134 \<Longrightarrow>
     step s (CaptureThread, 134) (s\<lparr> running := True, capture := Some C135 \<rparr>)"
| capture_enter:
    "capture s = Some C135 \<Longrightarrow> running s \<Longrightarrow>
     step s (CaptureThread, 135) (s\<lparr> capture := Some C137 \<rparr>)"
| capture_leave_flag:
    "capture s = Some C135 \<Longrightarrow> \<not> running s \<Longrightarrow>
     step s (CaptureThread, 135) (s\<lparr> capture := Some C140 \<rparr>)"
| capture_leave_cin:
    "capture s = Some C135 \<Longrightarrow> running s \<Longrightarrow>
     step s (CaptureThread, 135) (s\<lparr> capture := Some C140 \<rparr>)"
| capture_read:
    "capture s = Some C137 \<Longrightarrow>
     step s (CaptureThread, 137) (s\<lparr> capture := Some C138 \<rparr>)"
| capture_put:
    "capture s = Some C138 \<Longrightarrow>
     step s (CaptureThread, 138) (s\<lparr> capture := Some C135 \<rparr>)"
| capture_exit:
    "capture s = Some C140 \<Longrightarrow>
     step s (CaptureThread, 140) (s\<lparr> running := False, capture := Some Cdone \<rparr>)"
| spin_yield:
    "mainpc s = M143 \<Longrightarrow> \<not> running s \<Longrightarrow> step s (MainThread, 143) s"
| spin_pass:
    "mainpc s = M143 \<Longrightarrow> running s \<Longrightarrow> step s (MainThread, 143) (s\<lparr> mainpc := M146 \<rparr>)"
| loop_enter:
    "mainpc s = M146 \<Longrightarrow> running s \<Longrightarrow> step s (MainThread, 146) (s\<lparr> mainpc := M148 \<rparr>)"
| loop_leave:
    "mainpc s = M146 \<Longrightarrow> \<not> running s \<Longrightarrow> step s (MainThread, 146) (s\<lparr> mainpc := M180 \<rparr>)"
| get_bit:
    "mainpc s = M148 \<Longrightarrow> step s (MainThread, 148) (s\<lparr> mainpc := M156 \<rparr>)"
| get_nothing_closed:
    "mainpc s = M148 \<Longrightarrow>
     step s (MainThread, 152) (s\<lparr> running := False, mainpc := M180 \<rparr>)"
| get_nothing_open:
    "mainpc s = M148 \<Longrightarrow> step s (MainThread, 150) (s\<lparr> mainpc := Mabort \<rparr>)"
| body:
    "mainpc s = M156 \<Longrightarrow> step s (MainThread, 156) (s\<lparr> mainpc := M146 \<rparr>)"
| body_out_of_bounds:
    "mainpc s = M156 \<Longrightarrow> step s (MainThread, 168) (s\<lparr> mainpc := Mundefined \<rparr>)"
| clear:
    "mainpc s = M180 \<Longrightarrow>
     step s (MainThread, 180) (s\<lparr> running := False, mainpc := M181 \<rparr>)"
| ptt_off:
    "mainpc s = M181 \<Longrightarrow> step s (MainThread, 181) (s\<lparr> mainpc := M182 \<rparr>)"
| wait_until_idle:
    "mainpc s = M182 \<Longrightarrow> step s (MainThread, 182) (s\<lparr> mainpc := M183 \<rparr>)"
| join:
    "mainpc s = M183 \<Longrightarrow> capture s = Some Cdone \<Longrightarrow>
     step s (MainThread, 183) (s\<lparr> mainpc := M184 \<rparr>)"
| close_audio:
    "mainpc s = M184 \<Longrightarrow> step s (MainThread, 184) (s\<lparr> mainpc := M185 \<rparr>)"
| future_get:
    "mainpc s = M185 \<Longrightarrow> step s (MainThread, 185) (s\<lparr> mainpc := M186 \<rparr>)"
| future_throw:
    "mainpc s = M185 \<Longrightarrow> step s (MainThread, 185) (s\<lparr> mainpc := Mthrow \<rparr>)"
| close_bitstream:
    "mainpc s = M186 \<Longrightarrow> step s (MainThread, 186) (s\<lparr> mainpc := Mreturn \<rparr>)"
| signal:
    "step s (SignalHandler, 105) (s\<lparr> running := False \<rparr>)"

text \<open>An execution: the list of the states it goes through, each a step from the last.\<close>

inductive execution :: "sys \<Rightarrow> sys list \<Rightarrow> bool" where
  exec_one: "execution s [s]"
| exec_step: "step s l s' \<Longrightarrow> execution s' ss \<Longrightarrow> execution s (s # ss)"

code_pred step .

code_pred execution .

section \<open>Notions the statements use\<close>

text \<open>
  The samples an input holds in full: each pair of bytes, low byte first. A last odd byte
  is not a sample.
\<close>

fun full_samples :: "8 word list \<Rightarrow> 16 word list" where
  "full_samples (b0 # b1 # rest) = (push_bit 8 (ucast b1) OR ucast b0) # full_samples rest"
| "full_samples _ = []"

text \<open>
  What the variable \<^verbatim>\<open>sample\<close> holds once a read has failed on the input: the last
  full sample (or its first value), with its low byte overwritten by a last odd byte.
\<close>

fun residue :: "16 word \<Rightarrow> 8 word list \<Rightarrow> 16 word" where
  "residue sample (b0 # b1 # rest) = residue (push_bit 8 (ucast b1) OR ucast b0) rest"
| "residue sample [b0] = (sample AND 0xFF00) OR ucast b0"
| "residue sample [] = sample"


text \<open>
  The capture thread has executed line 134. In a state reached from \<open>sys_init\<close> the
  thread exists exactly when the main thread has left line 132, and the flag is true only
  after line 134.
\<close>

definition past_entry :: "sys \<Rightarrow> bool" where
  "past_entry s =
     (mainpc s \<noteq> M132 \<and> capture s \<noteq> None \<and> capture s \<noteq> Some C134)"

definition flag_inv :: "sys \<Rightarrow> bool" where
  "flag_inv s =
     ((mainpc s = M132 \<longrightarrow> capture s = None) \<and> (running s \<longrightarrow> past_entry s))"

subsection \<open>Concrete inputs\<close>

definition vm_example :: variables_map where
  "vm_example =
     \<lparr> vm_help = False, vm_version = False, vm_src = Some ''N0CALL'', vm_dest = None,
       vm_audio = None, vm_event = None, vm_key = None, vm_bitstream = False,
       vm_verbose = False, vm_debug = False, vm_quiet = False \<rparr>"

definition M_example :: "(8 word list) M17Modulator" where
  "M_example = \<lparr> bytes_to_symbols = (\<lambda>b. b), symbols_to_baseband = map ucast \<rparr>"

definition env_example :: run_env where
  "env_example =
     \<lparr> spin_yields = Some 1, observations = [GetBit 1, GetNothing True],
       idle_returns = True, join_returns = True, future = FutureReady,
       memory = [0, 0] \<rparr>"


definition sys_example :: "sys list" where
  "sys_example =
     [\<lparr> running = False, capture = None, mainpc = M132 \<rparr>,
      \<lparr> running = False, capture = Some C134, mainpc = M143 \<rparr>,
      \<lparr> running = True, capture = Some C135, mainpc = M143 \<rparr>,
      \<lparr> running = False, capture = Some C135, mainpc = M143 \<rparr>,
      \<lparr> running = False, capture = Some C140, mainpc = M143 \<rparr>]"

section \<open>Configuration parsing\<close>

text \<open>
  C9, help before validation. With the help option present, \<open>parse\<close> prints the help
  text and nothing else and returns no configuration, whatever the other options are:
  the required-option check, the verbosity check and the two length checks are not
  reached. \<open>main\<close> then returns 0.
\<close>

theorem help_precedence:
  assumes "vm_help vm"
  shows "parse argv0 vm = ([CoutHelp], None)
       \<and> main argv0 vm M env = ([CoutHelp], Returned 0)"
  using assms by (simp add: parse_def main_def)

theorem help_precedence_witness:
  "vm_help (vm_example\<lparr> vm_help := True, vm_src := None, vm_dest := Some ''ABCDEFGHIJKL'',
               vm_verbose := True, vm_quiet := True \<rparr>)
   \<and> parse ''m17-mod'' (vm_example\<lparr> vm_help := True, vm_src := None,
               vm_dest := Some ''ABCDEFGHIJKL'', vm_verbose := True, vm_quiet := True \<rparr>)
       = ([CoutHelp], None)
   \<and> main ''m17-mod'' (vm_example\<lparr> vm_help := True, vm_src := None,
               vm_dest := Some ''ABCDEFGHIJKL'', vm_verbose := True, vm_quiet := True \<rparr>)
         M_example env_example = ([CoutHelp], Returned 0)"
  using help_precedence [where vm = "vm_example\<lparr> vm_help := True, vm_src := None,
               vm_dest := Some ''ABCDEFGHIJKL'', vm_verbose := True, vm_quiet := True \<rparr>"
               and ?argv0.0 = "''m17-mod''" and M = M_example and env = env_example]
  by (simp add: vm_example_def)

text \<open>
  C10, the destination is optional and the source is required. Without a source option
  \<open>parse\<close> returns no configuration, and when neither help nor version was asked for it
  reports the missing option and prints the option description. Without a destination
  option, and with a source of at most 9 characters and at most one verbosity switch,
  \<open>parse\<close> prints nothing and returns a configuration whose destination is the empty
  string.
\<close>

theorem destination_optional_source_required:
  "(vm_src vm = None \<longrightarrow> snd (parse argv0 vm) = None)
   \<and> (vm_src vm = None \<and> \<not> vm_help vm \<and> \<not> vm_version vm \<longrightarrow>
        parse argv0 vm = ([CerrWhat (required_option ''src''), CoutDesc], None))
   \<and> (vm_dest vm = None \<and> vm_src vm = Some src \<and> length src \<le> 9
        \<and> \<not> vm_help vm \<and> \<not> vm_version vm
        \<and> (of_bool (vm_debug vm) + of_bool (vm_verbose vm) + of_bool (vm_quiet vm) :: int) \<le> 1
      \<longrightarrow> (\<exists>config. parse argv0 vm = ([], Some config)
             \<and> destination_address config = [] \<and> source_address config = src))"
  by (auto simp add: parse_def notify_def)

theorem destination_optional_source_required_witness:
  "snd (parse ''m17-mod'' (vm_example\<lparr> vm_src := None, vm_dest := Some ''W1AW'' \<rparr>)) = None
   \<and> parse ''m17-mod'' (vm_example\<lparr> vm_src := None, vm_dest := Some ''W1AW'' \<rparr>)
       = ([CerrWhat (required_option ''src''), CoutDesc], None)
   \<and> (\<exists>config. parse ''m17-mod'' vm_example = ([], Some config)
         \<and> destination_address config = [] \<and> source_address config = ''N0CALL'')"
  using destination_optional_source_required
          [where vm = "vm_example\<lparr> vm_src := None, vm_dest := Some ''W1AW'' \<rparr>"
             and ?argv0.0 = "''m17-mod''"]
        destination_optional_source_required
          [where vm = vm_example and src = "''N0CALL''" and ?argv0.0 = "''m17-mod''"]
  by (simp add: vm_example_def)

text \<open>
  C7, an oversized source identifier. With a source of more than 9 characters \<open>parse\<close>
  returns no configuration, \<open>main\<close> returns 0 having done nothing but what \<open>parse\<close>
  printed: no queue is constructed and no thread is started. When no earlier exit of
  \<open>parse\<close> applies (help, version, more than one verbosity switch), what is printed is
  the message of line 87.
\<close>

theorem oversized_source_rejected:
  assumes "vm_src vm = Some src" and "9 < length src"
  shows "snd (parse argv0 vm) = None
       \<and> main argv0 vm M env = (fst (parse argv0 vm), Returned 0)
       \<and> AudioQueueNew \<notin> set (fst (main argv0 vm M env))
       \<and> BitstreamQueueNew \<notin> set (fst (main argv0 vm M env))
       \<and> ThreadStart \<notin> set (fst (main argv0 vm M env))
       \<and> (\<not> vm_help vm \<and> \<not> vm_version vm
            \<and> (of_bool (vm_debug vm) + of_bool (vm_verbose vm) + of_bool (vm_quiet vm) :: int) \<le> 1
          \<longrightarrow> fst (parse argv0 vm) = [CerrText ''Source identifier too long.''])"
  using assms by (auto simp add: parse_def notify_def main_def)

theorem oversized_source_rejected_witness:
  "vm_src (vm_example\<lparr> vm_src := Some ''ABCDEFGHIJ'' \<rparr>) = Some ''ABCDEFGHIJ''
   \<and> 9 < length ''ABCDEFGHIJ''
   \<and> main ''m17-mod'' (vm_example\<lparr> vm_src := Some ''ABCDEFGHIJ'' \<rparr>) M_example env_example
       = ([CerrText ''Source identifier too long.''], Returned 0)"
  using oversized_source_rejected [where vm = "vm_example\<lparr> vm_src := Some ''ABCDEFGHIJ'' \<rparr>"
          and src = "''ABCDEFGHIJ''" and ?argv0.0 = "''m17-mod''" and M = M_example
          and env = env_example]
  by (simp add: vm_example_def)

section \<open>The frame assembler\<close>

subsection \<open>The cursor as a number\<close>

lemma word64_of_nat_eq:
  "m < 2 ^ 64 \<Longrightarrow> n < 2 ^ 64 \<Longrightarrow> ((of_nat m :: 64 word) = of_nat n) = (m = n)"
  by (simp add: word_of_nat_eq_iff take_bit_nat_eq_self)

lemma word64_of_nat_neq:
  "m \<noteq> n \<Longrightarrow> m < 2 ^ 64 \<Longrightarrow> n < 2 ^ 64 \<Longrightarrow> (of_nat m :: 64 word) \<noteq> of_nat n"
  by (simp add: word64_of_nat_eq)

lemma count_list_CoutByte: "count_list (map CoutByte bs) CoutFlush = 0"
  by (induction bs) simp_all

lemma word64_unat_of_nat: "n < 2 ^ 64 \<Longrightarrow> unat (of_nat n :: 64 word) = n"
  by (simp add: unat_of_nat)

lemma main_loop_still_running_append:
  "main_loop bm M evs s = (s', StillRunning) \<Longrightarrow>
   main_loop bm M (evs @ rest) s = main_loop bm M rest s'"
proof (induction evs arbitrary: s)
  case Nil
  then show ?case by simp
next
  case (Cons e evs)
  then show ?case
    by (cases e) (auto split: option.splits if_splits)
qed

text \<open>Bitstream mode: a run of bits none of which brings the cursor to the capacity.\<close>

lemma bitstream_run_no_flush:
  assumes "index s = of_nat k"
    and "\<forall>j < length bits. (of_nat (k + Suc j) :: 64 word) \<noteq> of_nat (length (bitstream_buf s))"
  shows "main_loop True M (map GetBit bits @ evs) s =
         main_loop True M evs
           (s\<lparr> index := of_nat (k + length bits), trace := trace s @ map CoutByte bits \<rparr>)"
  using assms
proof (induction bits arbitrary: s k)
  case Nil
  from Nil.prems(1) [symmetric] show ?case by simp
next
  case (Cons b bits)
  let ?s' = "s\<lparr> trace := trace s @ [CoutByte b], index := of_nat (Suc k) \<rparr>"
  from Cons.prems(2) have ne: "(of_nat (Suc k) :: 64 word) \<noteq> of_nat (length (bitstream_buf s))"
    by (metis add.right_neutral add_Suc_right length_Cons zero_less_Suc)
  have fb: "frame_body True M b s = Some ?s'"
    using Cons.prems(1) ne by (simp add: frame_body_def Let_def add.commute)
  have "\<forall>j < length bits. (of_nat (Suc k + Suc j) :: 64 word) \<noteq> of_nat (length (bitstream_buf ?s'))"
    using Cons.prems(2) by auto
  from Cons.IH [of ?s' "Suc k", OF _ this]
  show ?case using fb by simp
qed


lemma bitstream_mode_run:
  assumes cap: "0 < length buf" and le: "length buf \<le> length bits"
    and small: "length bits < 2 ^ 64"
  shows "main_loop True M (map GetBit bits @ evs) (asm_init buf tr) =
         main_loop True M evs
           \<lparr> bitstream_buf = buf, index = of_nat (length bits),
             trace = tr @ map CoutByte (take (length buf) bits) @ [CoutFlush]
                       @ map CoutByte (drop (length buf) bits) \<rparr>"
proof -
  define n where "n = length buf - 1"
  define b where "b = bits ! n"
  have n: "Suc n = length buf" using cap by (simp add: n_def)
  have nlt: "n < length bits" using n le by simp
  have split: "bits = take n bits @ b # drop (Suc n) bits"
    unfolding b_def using nlt by (rule id_take_nth_drop)
  have tk: "take (length buf) bits = take n bits @ [b]"
    unfolding b_def n [symmetric] using nlt by (rule take_Suc_conv_app_nth)
  let ?s0 = "asm_init buf tr"
  let ?s1 = "?s0\<lparr> index := of_nat (0 + length (take n bits)),
                   trace := trace ?s0 @ map CoutByte (take n bits) \<rparr>"
  let ?s2 = "\<lparr> bitstream_buf = buf, index = of_nat (length buf),
               trace = tr @ map CoutByte (take n bits) @ [CoutByte b, CoutFlush] \<rparr>"
  let ?s3 = "?s2\<lparr> index := of_nat (length buf + length (drop (Suc n) bits)),
                   trace := trace ?s2 @ map CoutByte (drop (Suc n) bits) \<rparr>"
  have len1: "length (take n bits) = n" using n le by simp
  have p1: "main_loop True M (map GetBit (take n bits) @ (GetBit b # map GetBit (drop (Suc n) bits) @ evs)) ?s0
            = main_loop True M (GetBit b # map GetBit (drop (Suc n) bits) @ evs) ?s1"
  proof (rule bitstream_run_no_flush)
    show "index ?s0 = of_nat 0" by (simp add: asm_init_def)
    show "\<forall>j<length (take n bits). (of_nat (0 + Suc j) :: 64 word) \<noteq> of_nat (length (bitstream_buf ?s0))"
    proof (intro allI impI)
      fix j assume "j < length (take n bits)"
      then have "Suc j \<noteq> length buf" "Suc j < 2 ^ 64" "length buf < 2 ^ 64"
        using n le small by simp_all
      then have "(of_nat (Suc j) :: 64 word) \<noteq> of_nat (length buf)"
        by (rule word64_of_nat_neq)
      then show "(of_nat (0 + Suc j) :: 64 word) \<noteq> of_nat (length (bitstream_buf ?s0))"
        by (simp add: asm_init_def)
    qed
  qed
  have w: "(of_nat n :: 64 word) + 1 = of_nat (length buf)"
    unfolding n [symmetric] by simp
  have fb: "frame_body True M b ?s1 = Some ?s2"
    using w len1 by (simp add: frame_body_def Let_def asm_init_def)
  have p3: "main_loop True M (map GetBit (drop (Suc n) bits) @ evs) ?s2 = main_loop True M evs ?s3"
  proof (rule bitstream_run_no_flush)
    show "index ?s2 = of_nat (length buf)" by simp
    show "\<forall>j<length (drop (Suc n) bits).
            (of_nat (length buf + Suc j) :: 64 word) \<noteq> of_nat (length (bitstream_buf ?s2))"
    proof (intro allI impI)
      fix j assume "j < length (drop (Suc n) bits)"
      then have "length buf + Suc j \<noteq> length buf" "length buf + Suc j < 2 ^ 64"
          "length buf < 2 ^ 64"
        using n le small by simp_all
      then have "(of_nat (length buf + Suc j) :: 64 word) \<noteq> of_nat (length buf)"
        by (rule word64_of_nat_neq)
      then show "(of_nat (length buf + Suc j) :: 64 word) \<noteq> of_nat (length (bitstream_buf ?s2))"
        by simp
    qed
  qed
  have s3: "?s3 = \<lparr> bitstream_buf = buf, index = of_nat (length bits),
             trace = tr @ map CoutByte (take (length buf) bits) @ [CoutFlush]
                       @ map CoutByte (drop (length buf) bits) \<rparr>"
    using n le by (simp add: tk)
  have "main_loop True M (map GetBit bits @ evs) ?s0
        = main_loop True M (map GetBit (take n bits) @ (GetBit b # map GetBit (drop (Suc n) bits) @ evs)) ?s0"
    by (subst split) simp
  also have "\<dots> = main_loop True M (GetBit b # map GetBit (drop (Suc n) bits) @ evs) ?s1"
    by (rule p1)
  also have "\<dots> = main_loop True M (map GetBit (drop (Suc n) bits) @ evs) ?s2"
    using fb by simp
  also have "\<dots> = main_loop True M evs ?s3" by (rule p3)
  finally show ?thesis using s3 by simp
qed


text \<open>Baseband mode: bits that do not yet fill the frame are stored, nothing is written.\<close>

lemma baseband_fill:
  assumes "index s = of_nat k"
    and "k + length bits < length (bitstream_buf s)"
    and "length (bitstream_buf s) < 2 ^ 64"
  shows "main_loop False M (map GetBit bits @ evs) s =
         main_loop False M evs
           (s\<lparr> bitstream_buf := take k (bitstream_buf s) @ bits
                                   @ drop (k + length bits) (bitstream_buf s),
                index := of_nat (k + length bits) \<rparr>)"
  using assms
proof (induction bits arbitrary: s k)
  case Nil
  from Nil.prems(1) [symmetric] show ?case by simp
next
  case (Cons b bits)
  let ?buf = "bitstream_buf s"
  let ?s' = "s\<lparr> bitstream_buf := ?buf[k := b], index := of_nat (Suc k) \<rparr>"
  have k: "k < length ?buf" "Suc k < length ?buf" "k < 2 ^ 64" "Suc k < 2 ^ 64"
    using Cons.prems(2,3) by simp_all
  have u: "unat (index s) = k"
    using Cons.prems(1) k(3) by (simp add: word64_unat_of_nat)
  have "Suc k \<noteq> length ?buf" using k(2) by simp
  then have ne: "(of_nat (Suc k) :: 64 word) \<noteq> of_nat (length ?buf)"
    using k(4) Cons.prems(3) by (rule word64_of_nat_neq)
  have fb: "frame_body False M b s = Some ?s'"
    using Cons.prems(1) u k(1) ne by (simp add: frame_body_def Let_def add.commute)
  have bufs: "take (Suc k) (?buf[k := b]) @ bits @ drop (Suc k + length bits) (?buf[k := b])
              = take k ?buf @ (b # bits) @ drop (k + length (b # bits)) ?buf"
    using k(1) by (simp add: take_Suc_conv_app_nth)
  have "main_loop False M (map GetBit bits @ evs) ?s' =
        main_loop False M evs
          (?s'\<lparr> bitstream_buf := take (Suc k) (bitstream_buf ?s') @ bits
                                    @ drop (Suc k + length bits) (bitstream_buf ?s'),
                 index := of_nat (Suc k + length bits) \<rparr>)"
    by (rule Cons.IH) (use Cons.prems in simp_all)
  then show ?case using fb bufs by simp
qed

lemma baseband_first_frame:
  assumes cap: "0 < length buf" and small: "length buf < 2 ^ 64"
    and le: "length buf \<le> length bits"
  shows "main_loop False M (map GetBit bits @ evs) (asm_init buf tr) =
         main_loop False M (map GetBit (drop (length buf) bits) @ evs)
           \<lparr> bitstream_buf = take (length buf) bits, index = of_nat (length buf),
             trace = tr @ emit_baseband M (take (length buf) bits) \<rparr>"
proof -
  define n where "n = length buf - 1"
  define b where "b = bits ! n"
  have n: "Suc n = length buf" using cap by (simp add: n_def)
  have nlt: "n < length bits" using n le by simp
  have split: "bits = take n bits @ b # drop (Suc n) bits"
    unfolding b_def using nlt by (rule id_take_nth_drop)
  have tk: "take (length buf) bits = take n bits @ [b]"
    unfolding b_def n [symmetric] using nlt by (rule take_Suc_conv_app_nth)
  have len1: "length (take n bits) = n" using nlt by simp
  let ?s0 = "asm_init buf tr"
  let ?s1 = "?s0\<lparr> bitstream_buf := take 0 (bitstream_buf ?s0) @ take n bits
                       @ drop (0 + length (take n bits)) (bitstream_buf ?s0),
                   index := of_nat (0 + length (take n bits)) \<rparr>"
  let ?s2 = "\<lparr> bitstream_buf = take (length buf) bits, index = of_nat (length buf),
               trace = tr @ emit_baseband M (take (length buf) bits) \<rparr>"
  let ?rest = "map GetBit (drop (Suc n) bits) @ evs"
  have p1: "main_loop False M (map GetBit (take n bits) @ (GetBit b # ?rest)) ?s0
            = main_loop False M (GetBit b # ?rest) ?s1"
    by (rule baseband_fill) (use n len1 small in \<open>simp_all add: asm_init_def\<close>)
  have s1: "?s1 = \<lparr> bitstream_buf = take n bits @ drop n buf, index = of_nat n, trace = tr \<rparr>"
    using len1 by (simp add: asm_init_def)
  have dn: "drop n buf = [buf ! n]"
    using n by (metis Cons_nth_drop_Suc drop_all lessI order_refl)
  have upd: "(take n bits @ drop n buf)[n := b] = take (length buf) bits"
    using len1 dn by (simp add: tk list_update_append)
  have w: "(of_nat n :: 64 word) + 1 = of_nat (length buf)"
    unfolding n [symmetric] by simp
  have un: "unat (of_nat n :: 64 word) = n"
    using n small by (simp add: word64_unat_of_nat)
  have lenb: "length (take n bits @ drop n buf) = length buf"
    using len1 n by simp
  have fb: "frame_body False M b ?s1 = Some ?s2"
    unfolding s1 using w un upd lenb n le
    by (simp add: frame_body_def Let_def)
  have "main_loop False M (map GetBit bits @ evs) ?s0
        = main_loop False M (map GetBit (take n bits) @ (GetBit b # ?rest)) ?s0"
    by (subst split) simp
  also have "\<dots> = main_loop False M (GetBit b # ?rest) ?s1" by (rule p1)
  also have "\<dots> = main_loop False M ?rest ?s2" using fb by simp
  finally show ?thesis using n by simp
qed

lemma baseband_overrun:
  assumes cap: "0 < length buf" and small: "length buf < 2 ^ 64"
    and lt: "length buf < length bits"
  shows "main_loop False M (map GetBit bits @ evs) (asm_init buf tr) =
         (\<lparr> bitstream_buf = take (length buf) bits, index = of_nat (length buf),
            trace = tr @ emit_baseband M (take (length buf) bits) \<rparr>, OutOfBounds)"
proof -
  let ?s2 = "\<lparr> bitstream_buf = take (length buf) bits, index = of_nat (length buf),
               trace = tr @ emit_baseband M (take (length buf) bits) \<rparr>"
  obtain c cs where d: "drop (length buf) bits = c # cs"
    using lt by (cases "drop (length buf) bits") simp_all
  have un: "unat (of_nat (length buf) :: 64 word) = length buf"
    using small by (simp add: word64_unat_of_nat)
  have "length (take (length buf) bits) = length buf" using lt by simp
  then have fb: "frame_body False M c ?s2 = None"
    using un by (simp add: frame_body_def)
  have "main_loop False M (map GetBit bits @ evs) (asm_init buf tr)
        = main_loop False M (map GetBit (drop (length buf) bits) @ evs) ?s2"
    using cap small lt by (simp add: baseband_first_frame)
  also have "\<dots> = (?s2, OutOfBounds)"
    unfolding d using fb by simp
  finally show ?thesis .
qed

subsection \<open>The claims about frames\<close>

text \<open>
  C1, frame completeness, does not hold of the code. The claim is that for \<open>B\<close> delivered
  bits the assembler emits \<open>\<lfloor>|B| / capacity\<rfloor>\<close> frames. In baseband mode the cursor
  is never set back, so whenever more bits than one frame holds are delivered, what the
  loop has written is the conversion of the first frame and nothing else: one frame and
  one flush, however many frames' worth of bits came.
\<close>

theorem baseband_emits_one_frame:
  assumes "0 < length buf" and "length buf < 2 ^ 64" and "length buf < length bits"
  shows "trace (fst (main_loop False M (map GetBit bits @ evs) (asm_init buf tr)))
         = tr @ emit_baseband M (take (length buf) bits)
       \<and> count_list (emit_baseband M (take (length buf) bits)) CoutFlush = 1"
  using assms by (simp add: baseband_overrun emit_baseband_def count_list_CoutByte)

theorem baseband_emits_one_frame_witness:
  "0 < length [0, 0 :: 8 word] \<and> length [0, 0 :: 8 word] < 2 ^ 64
   \<and> length [0, 0 :: 8 word] < length [1, 0, 1, 1 :: 8 word]
   \<and> trace (fst (main_loop False M_example (map GetBit [1, 0, 1, 1] @ [GetNothing True])
                   (asm_init [0, 0] [])))
       = [CoutByte 0, CoutByte 1, CoutByte 0, CoutByte 0, CoutFlush]
   \<and> count_list (emit_baseband M_example (take (length [0, 0 :: 8 word]) [1, 0, 1, 1]))
         CoutFlush = 1"
  using baseband_emits_one_frame [where buf = "[0, 0]" and bits = "[1, 0, 1, 1]"
          and M = M_example and evs = "[GetNothing True]" and tr = "[]"]
  by (simp add: emit_baseband_def M_example_def baseband_bytes_def)

text \<open>
  C2, cursor reset and a flush per frame, does not hold of the code. In bitstream mode,
  with at least one frame's worth of bits delivered and the queue then closed, every bit
  has been written, the one flush of the run comes after the first frame, and the cursor
  ends at the number of bits delivered: it was never set back to the frame start.
\<close>

theorem bitstream_single_flush:
  assumes "0 < length buf" and "length buf \<le> length bits" and "length bits < 2 ^ 64"
  shows "main_loop True M (map GetBit bits @ [GetNothing True]) (asm_init buf tr) =
         (\<lparr> bitstream_buf = buf, index = of_nat (length bits),
            trace = tr @ map CoutByte (take (length buf) bits) @ [CoutFlush]
                      @ map CoutByte (drop (length buf) bits)
                      @ [ClogText ''bitstream queue is closed; done transmitting.'',
                         RunningStore False] \<rparr>, LoopBreak)"
  using assms by (simp add: bitstream_mode_run)

theorem bitstream_single_flush_witness:
  "0 < length [0, 0 :: 8 word] \<and> length [0, 0 :: 8 word] \<le> length [1, 0, 1, 1 :: 8 word]
   \<and> length [1, 0, 1, 1 :: 8 word] < 2 ^ 64
   \<and> main_loop True M_example (map GetBit [1, 0, 1, 1] @ [GetNothing True]) (asm_init [0, 0] [])
       = (\<lparr> bitstream_buf = [0, 0], index = 4,
            trace = [CoutByte 1, CoutByte 0, CoutFlush, CoutByte 1, CoutByte 1,
                     ClogText ''bitstream queue is closed; done transmitting.'',
                     RunningStore False] \<rparr>, LoopBreak)"
  using bitstream_single_flush [where buf = "[0, 0]" and bits = "[1, 0, 1, 1]"
          and M = M_example and tr = "[]"]
  by simp

text \<open>
  C3, the cursor bound, does not hold of the code. In baseband mode, once more bits are
  delivered than one frame holds, the loop reaches the store of line 168 with the cursor
  equal to the capacity, one past the last element of the frame.
\<close>

theorem baseband_store_out_of_bounds:
  assumes "0 < length buf" and "length buf < 2 ^ 64" and "length buf < length bits"
  shows "snd (main_loop False M (map GetBit bits @ evs) (asm_init buf tr)) = OutOfBounds
       \<and> unat (index (fst (main_loop False M (map GetBit bits @ evs) (asm_init buf tr))))
           = length buf"
  using assms by (simp add: baseband_overrun word64_unat_of_nat)

theorem baseband_store_out_of_bounds_witness:
  "0 < length [0, 0 :: 8 word] \<and> length [0, 0 :: 8 word] < 2 ^ 64
   \<and> length [0, 0 :: 8 word] < length [1, 0, 1 :: 8 word]
   \<and> snd (main_loop False M_example (map GetBit [1, 0, 1] @ [GetNothing True])
             (asm_init [0, 0] [])) = OutOfBounds
   \<and> unat (index (fst (main_loop False M_example (map GetBit [1, 0, 1] @ [GetNothing True])
                          (asm_init [0, 0] [])))) = 2"
  using baseband_store_out_of_bounds [where buf = "[0, 0]" and bits = "[1, 0, 1]"
          and M = M_example and evs = "[GetNothing True]" and tr = "[]"]
  by simp

text \<open>
  C6, a \<^verbatim>\<open>get\<close> that returns nothing. Whenever the loop is still running after the
  observations so far and \<^verbatim>\<open>get\<close> then returns no bit: with the queue closed the loop
  logs the end of transmission, clears the flag and is left by the \<^verbatim>\<open>break\<close>, and
  nothing observed later matters; with the queue not closed the assertion fails.
\<close>

theorem get_nothing_ends_loop:
  assumes "main_loop bm M evs s = (s', StillRunning)"
  shows "main_loop bm M (evs @ GetNothing closed # rest) s =
         (if closed
          then (s'\<lparr> trace := trace s'
                      @ [ClogText ''bitstream queue is closed; done transmitting.'',
                         RunningStore False] \<rparr>, LoopBreak)
          else (s', AssertFailed))"
  using assms by (simp add: main_loop_still_running_append)

theorem get_nothing_ends_loop_witness:
  "main_loop False M_example [GetBit 1] (asm_init [0, 0] [])
     = (\<lparr> bitstream_buf = [1, 0], index = 1, trace = [] \<rparr>, StillRunning)
   \<and> main_loop False M_example ([GetBit 1] @ GetNothing True # [GetBit 0, GetBit 1])
        (asm_init [0, 0] [])
     = (\<lparr> bitstream_buf = [1, 0], index = 1,
          trace = [ClogText ''bitstream queue is closed; done transmitting.'',
                   RunningStore False] \<rparr>, LoopBreak)
   \<and> main_loop False M_example ([GetBit 1] @ GetNothing False # [GetBit 0, GetBit 1])
        (asm_init [0, 0] [])
     = (\<lparr> bitstream_buf = [1, 0], index = 1, trace = [] \<rparr>, AssertFailed)"
proof -
  have h: "main_loop False M_example [GetBit 1] (asm_init [0, 0] [])
           = (\<lparr> bitstream_buf = [1, 0], index = 1, trace = [] \<rparr>, StillRunning)"
    by (simp add: asm_init_def frame_body_def)
  show ?thesis
    using h get_nothing_ends_loop [OF h, where closed = True and rest = "[GetBit 0, GetBit 1]"]
      get_nothing_ends_loop [OF h, where closed = False and rest = "[GetBit 0, GetBit 1]"]
    by simp
qed

section \<open>Teardown\<close>







section \<open>The capture thread\<close>

lemma capture_loop_to_eof:
  "capture_loop (\<lambda>_. True) i \<lparr> pending = bytes, failed = False \<rparr> sample
   = map Put (full_samples bytes) @ [Put (residue sample bytes)]"
proof (induction sample bytes arbitrary: i rule: residue.induct)
  case (1 sample b0 b1 rest)
  show ?case
    by (subst capture_loop.simps) (simp add: "1.IH")
next
  case (2 sample b0)
  show ?case
    by (subst capture_loop.simps, simp, subst capture_loop.simps, simp)
next
  case (3 sample)
  show ?case
    by (subst capture_loop.simps, simp, subst capture_loop.simps, simp)
qed

text \<open>
  C4, the capture thread at end of input, does not hold of the code. The claim is that
  the thread puts exactly the samples read in full and makes no further \<^verbatim>\<open>put\<close> once
  a read has failed. With the flag left true, the thread puts every full sample of the
  input and then one more value: the \<^verbatim>\<open>put\<close> of line 138 follows the read that failed,
  and passes on what the variable then holds.
\<close>

theorem capture_puts_after_failed_read:
  "capture_thread (\<lambda>_. True) bytes
   = StoreRunning True # map Put (full_samples bytes)
       @ [Put (residue 0 bytes), StoreRunning False]"
  by (simp add: capture_thread_def capture_loop_to_eof)

theorem capture_puts_after_failed_read_witness:
  "full_samples [] = []
   \<and> capture_thread (\<lambda>_. True) [] = [StoreRunning True, Put 0, StoreRunning False]
   \<and> full_samples [1, 2, 3] = [0x0201]
   \<and> capture_thread (\<lambda>_. True) [1, 2, 3]
       = [StoreRunning True, Put 0x0201, Put 0x0203, StoreRunning False]"
  using capture_puts_after_failed_read [of "[]"] capture_puts_after_failed_read [of "[1, 2, 3]"]
  by simp

section \<open>The run flag\<close>

lemma step_sets_true:
  "step s l s' \<Longrightarrow> \<not> running s \<Longrightarrow> running s' \<Longrightarrow> l = (CaptureThread, 134)"
  by (induction rule: step.induct) simp_all

lemma step_past_entry: "step s l s' \<Longrightarrow> past_entry s \<Longrightarrow> past_entry s'"
  by (induction rule: step.induct) (simp_all add: past_entry_def)

lemma step_flag_inv: "step s l s' \<Longrightarrow> flag_inv s \<Longrightarrow> flag_inv s'"
  by (induction rule: step.induct) (auto simp add: flag_inv_def past_entry_def)

lemma step_stays_false:
  "step s l s' \<Longrightarrow> past_entry s \<Longrightarrow> \<not> running s \<Longrightarrow> \<not> running s'"
  by (induction rule: step.induct) (simp_all add: past_entry_def)

lemma execution_nonempty: "execution s ss \<Longrightarrow> ss \<noteq> [] \<and> hd ss = s"
  by (induction rule: execution.induct) simp_all

lemma execution_invariant:
  assumes "execution s ss" and "P s" and "\<And>s l s'. step s l s' \<Longrightarrow> P s \<Longrightarrow> P s'"
  shows "\<forall>n < length ss. P (ss ! n)"
  using assms(1,2)
proof (induction rule: execution.induct)
  case (exec_one s)
  then show ?case by simp
next
  case (exec_step s l s' ss)
  have "P s'" using exec_step.hyps(1) exec_step.prems by (rule assms(3))
  then have ih: "\<forall>n < length ss. P (ss ! n)" by (rule exec_step.IH)
  show ?case
  proof (intro allI impI)
    fix n assume "n < length (s # ss)"
    then show "P ((s # ss) ! n)" using exec_step.prems ih by (cases n) simp_all
  qed
qed

lemma execution_drop:
  "execution s ss \<Longrightarrow> n < length ss \<Longrightarrow> execution (ss ! n) (drop n ss)"
proof (induction arbitrary: n rule: execution.induct)
  case (exec_one s)
  then show ?case by (simp add: execution.exec_one)
next
  case (exec_step s l s' ss)
  show ?case
  proof (cases n)
    case 0
    then show ?thesis
      using exec_step.hyps by (simp add: execution.exec_step)
  next
    case (Suc m)
    then show ?thesis using exec_step.IH [of m] exec_step.prems by simp
  qed
qed

lemma execution_stays_false:
  assumes "execution s ss" and "past_entry s" and "\<not> running s"
  shows "\<forall>n < length ss. \<not> running (ss ! n)"
proof -
  have "\<forall>n < length ss. past_entry (ss ! n) \<and> \<not> running (ss ! n)"
    using assms(1)
  proof (rule execution_invariant)
    show "past_entry s \<and> \<not> running s" using assms(2,3) by simp
  next
    fix s l s' assume "step s l s'" and "past_entry s \<and> \<not> running s"
    then show "past_entry s' \<and> \<not> running s'"
      using step_past_entry step_stays_false by blast
  qed
  then show ?thesis by simp
qed

text \<open>
  C8, the run flag. A step that takes the flag from false to true is the capture thread's
  step at line 134. In every execution from the start, under every interleaving of the
  two threads and the signal handler: once the flag has been true and has then been
  false, it is false in every later state.
\<close>

theorem run_flag_monotone:
  "(step s l s' \<and> \<not> running s \<and> running s' \<longrightarrow> l = (CaptureThread, 134))
   \<and> (execution sys_init ss \<and> i \<le> j \<and> j \<le> k \<and> k < length ss
        \<and> running (ss ! i) \<and> \<not> running (ss ! j) \<longrightarrow> \<not> running (ss ! k))"
proof (intro conjI impI)
  assume "step s l s' \<and> \<not> running s \<and> running s'"
  then show "l = (CaptureThread, 134)" using step_sets_true by blast
next
  assume a: "execution sys_init ss \<and> i \<le> j \<and> j \<le> k \<and> k < length ss
        \<and> running (ss ! i) \<and> \<not> running (ss ! j)"
  then have ex: "execution sys_init ss" and ij: "i \<le> j" and jk: "j \<le> k"
    and k: "k < length ss" and ri: "running (ss ! i)" and rj: "\<not> running (ss ! j)"
    by simp_all
  have "flag_inv sys_init" by (simp add: flag_inv_def sys_init_def)
  with ex have inv: "\<forall>n < length ss. flag_inv (ss ! n)"
    using step_flag_inv by (rule execution_invariant)
  have pi: "past_entry (ss ! i)" using inv ri ij jk k by (simp add: flag_inv_def)
  have exi: "execution (ss ! i) (drop i ss)"
    using ex ij jk k by (simp add: execution_drop)
  have "\<forall>n < length (drop i ss). past_entry (drop i ss ! n)"
    using exi pi step_past_entry by (rule execution_invariant)
  moreover have "j - i < length (drop i ss)" and "drop i ss ! (j - i) = ss ! j"
    using ij jk k by simp_all
  ultimately have pj: "past_entry (ss ! j)" by metis
  have exj: "execution (ss ! j) (drop j ss)"
    using ex jk k by (simp add: execution_drop)
  then have "\<forall>n < length (drop j ss). \<not> running (drop j ss ! n)"
    using pj rj by (rule execution_stays_false)
  moreover have "k - j < length (drop j ss)" and "drop j ss ! (k - j) = ss ! k"
    using jk k by simp_all
  ultimately show "\<not> running (ss ! k)" by metis
qed

theorem run_flag_monotone_witness:
  "step (sys_example ! 1) (CaptureThread, 134) (sys_example ! 2)
   \<and> \<not> running (sys_example ! 1) \<and> running (sys_example ! 2)
   \<and> execution sys_init sys_example
   \<and> 4 < length sys_example
   \<and> running (sys_example ! 2) \<and> \<not> running (sys_example ! 3)
   \<and> \<not> running (sys_example ! 4)"
proof -
  let ?s0 = "\<lparr> running = False, capture = None, mainpc = M132 \<rparr>"
  let ?s1 = "\<lparr> running = False, capture = Some C134, mainpc = M143 \<rparr>"
  let ?s2 = "\<lparr> running = True, capture = Some C135, mainpc = M143 \<rparr>"
  let ?s3 = "\<lparr> running = False, capture = Some C135, mainpc = M143 \<rparr>"
  let ?s4 = "\<lparr> running = False, capture = Some C140, mainpc = M143 \<rparr>"
  have st0: "step ?s0 (MainThread, 132) ?s1" using spawn [of ?s0] by simp
  have st1: "step ?s1 (CaptureThread, 134) ?s2" using set_true [of ?s1] by simp
  have st2: "step ?s2 (SignalHandler, 105) ?s3" using signal [of ?s2] by simp
  have st3: "step ?s3 (CaptureThread, 135) ?s4" using capture_leave_flag [of ?s3] by simp
  have ex: "execution sys_init sys_example"
    unfolding sys_init_def sys_example_def
    by (rule exec_step [OF st0], rule exec_step [OF st1], rule exec_step [OF st2],
        rule exec_step [OF st3], rule exec_one)
  have facts: "4 < length sys_example" "running (sys_example ! 2)"
      "\<not> running (sys_example ! 3)" "\<not> running (sys_example ! 1)"
      "sys_example ! 1 = ?s1" "sys_example ! 2 = ?s2"
    by (simp_all add: sys_example_def)
  have "\<not> running (sys_example ! 4)"
    using run_flag_monotone [where ss = sys_example and i = 2 and j = 3 and k = 4
            and s = ?s1 and l = "(CaptureThread, 134)" and s' = ?s2] ex facts
    by simp
  then show ?thesis using ex facts st1 by simp
qed

end
